theory Spec2Isabelle
  imports Main "HOL-Library.Word" "HOL-Library.AList" "HOL-Library.Char_ord"
    "HOL-Library.List_Lexorder"
begin

section \<open>The environment of \<open>main.py\<close>: strings, paths and the file system\<close>

text \<open>
  \<open>main.py\<close> is one module of pure control flow around the Python standard library:
  \<open>os.walk\<close>, \<open>os.path\<close>, \<open>shutil.copy2\<close>, \<open>filecmp.dircmp\<close> and \<open>hashlib\<close>.
  The library is modelled here as far as the module uses it, on a POSIX system:
  a file system is a tree of regular files and directories (no symbolic links, no
  special files, no permission failures), paths are the strings the program handles,
  and an exception is a value of type \<open>error\<close>.
\<close>

datatype error =
    FileNotFoundError
  | IsADirectoryError
  | NotADirectoryError
  | SameFileError
  | ValueError

type_synonym byte = "8 word"

text \<open>The part of \<open>os.stat_result\<close> that \<open>shutil.copystat\<close> carries over.\<close>

record stat_result =
  st_mode :: nat
  st_atime :: int
  st_mtime :: int

datatype node =
    File "byte list" stat_result
  | Dir "(string \<times> node) list"

text \<open>
  A directory lists its entries in the order \<open>os.scandir\<close> reports them. On a real file
  system every entry name is non-empty, is neither \<open>.\<close> nor \<open>..\<close>, holds no separator, and
  is unique in its directory.
\<close>

definition valid_name :: "string \<Rightarrow> bool" where
  "valid_name n \<longleftrightarrow> n \<noteq> [] \<and> n \<noteq> ''.'' \<and> n \<noteq> ''..'' \<and> CHR ''/'' \<notin> set n"

fun wf_node :: "node \<Rightarrow> bool"
  and wf_entries :: "(string \<times> node) list \<Rightarrow> bool" where
  "wf_node (File _ _) = True"
| "wf_node (Dir es) = (distinct (map fst es) \<and> wf_entries es)"
| "wf_entries [] = True"
| "wf_entries (e # es) = (valid_name (fst e) \<and> wf_node (snd e) \<and> wf_entries es)"

subsection \<open>Strings\<close>

text \<open>\<open>str.split(sep)\<close> for a one-character separator: never returns the empty list.\<close>

fun str_split :: "char \<Rightarrow> string \<Rightarrow> string list" where
  "str_split sep [] = [[]]"
| "str_split sep (c # cs) =
     (if c = sep then [] # str_split sep cs
      else (case str_split sep cs of
              [] \<Rightarrow> [[c]]
            | w # ws \<Rightarrow> (c # w) # ws))"

text \<open>\<open>sep.join(parts)\<close>.\<close>

fun str_join :: "string \<Rightarrow> string list \<Rightarrow> string" where
  "str_join sep [] = []"
| "str_join sep [x] = x"
| "str_join sep (x # y # ys) = x @ sep @ str_join sep (y # ys)"

text \<open>\<open>str.rfind(c)\<close>: the index of the last occurrence of \<open>c\<close>, or \<open>-1\<close>.\<close>

definition rfind :: "string \<Rightarrow> char \<Rightarrow> int" where
  "rfind p c =
     (if c \<in> set p then int (length p) - 1 - int (length (takeWhile (\<lambda>x. x \<noteq> c) (rev p)))
      else - 1)"

definition upper_char :: "char \<Rightarrow> char" where
  "upper_char c =
     (if (97::nat) \<le> of_char c \<and> of_char c \<le> (122::nat)
      then char_of (of_char c - (32::nat)) else c)"

definition lower_char :: "char \<Rightarrow> char" where
  "lower_char c =
     (if (65::nat) \<le> of_char c \<and> of_char c \<le> (90::nat)
      then char_of (of_char c + (32::nat)) else c)"

text \<open>\<open>str.capitalize\<close> on ASCII text: first character upper case, the rest lower case.\<close>

fun capitalize :: "string \<Rightarrow> string" where
  "capitalize [] = []"
| "capitalize (c # cs) = upper_char c # map lower_char cs"

subsection \<open>\<open>posixpath\<close>\<close>

definition isabs :: "string \<Rightarrow> bool" where
  "isabs p = (case p of [] \<Rightarrow> False | c # _ \<Rightarrow> c = CHR ''/'')"

text \<open>\<open>os.path.join(a, b)\<close> with one further component.\<close>

definition join :: "string \<Rightarrow> string \<Rightarrow> string" where
  "join a b =
     (if isabs b then b
      else if a = [] \<or> last a = CHR ''/'' then a @ b
      else a @ ''/'' @ b)"

definition basename :: "string \<Rightarrow> string" where
  "basename p = drop (nat (rfind p (CHR ''/'') + 1)) p"








subsection \<open>Path resolution\<close>

text \<open>
  A path is resolved from the root along its components; empty components and \<open>.\<close> are
  skipped. A component \<open>..\<close> is looked up like a name, so a path that
  holds one does not resolve: the program builds its paths with \<open>join\<close> from directory
  listings and from \<open>relpath\<close> of a path below its start, which never produce one.
\<close>

definition path_components :: "string \<Rightarrow> string list" where
  "path_components p = filter (\<lambda>c. c \<noteq> [] \<and> c \<noteq> ''.'') (str_split (CHR ''/'') p)"

fun get_node :: "node \<Rightarrow> string list \<Rightarrow> error + node" where
  "get_node n [] = Inr n"
| "get_node (File _ _) (c # cs) = Inl NotADirectoryError"
| "get_node (Dir es) (c # cs) =
     (case map_of es c of
        None \<Rightarrow> Inl FileNotFoundError
      | Some ch \<Rightarrow> get_node ch cs)"

text \<open>\<open>os.stat(path)\<close>, returning the node the path names.\<close>

definition os_stat :: "node \<Rightarrow> string \<Rightarrow> error + node" where
  "os_stat fs p = (if p = [] then Inl FileNotFoundError else get_node fs (path_components p))"

definition isfile :: "node \<Rightarrow> string \<Rightarrow> bool" where
  "isfile fs p = (case os_stat fs p of Inr (File _ _) \<Rightarrow> True | _ \<Rightarrow> False)"

definition isdir :: "node \<Rightarrow> string \<Rightarrow> bool" where
  "isdir fs p = (case os_stat fs p of Inr (Dir _) \<Rightarrow> True | _ \<Rightarrow> False)"

text \<open>
  \<open>put_node t cs n\<close> stores \<open>n\<close> at \<open>cs\<close> below \<open>t\<close>, replacing the entry of that name or
  adding one at the end; the directories on the way are those that exist.
\<close>

fun put_node :: "node \<Rightarrow> string list \<Rightarrow> node \<Rightarrow> node" where
  "put_node t [] n = n"
| "put_node (File d s) (c # cs) n = File d s"
| "put_node (Dir es) [c] n = Dir (AList.update c n es)"
| "put_node (Dir es) (c # cs) n =
     (case map_of es c of
        None \<Rightarrow> Dir es
      | Some ch \<Rightarrow> Dir (AList.update c (put_node ch cs n) es))"

subsection \<open>\<open>shutil.copy2\<close>\<close>

text \<open>\<open>open(path, "rb")\<close> followed by reading the file to its end.\<close>

definition read_file :: "node \<Rightarrow> string \<Rightarrow> error + byte list" where
  "read_file fs p =
     (case os_stat fs p of
        Inl e \<Rightarrow> Inl e
      | Inr (Dir _) \<Rightarrow> Inl IsADirectoryError
      | Inr (File d _) \<Rightarrow> Inr d)"

text \<open>The mode and times of a file that \<open>open(path, "wb")\<close> has just created.\<close>

definition creat_stat :: "stat_result" where
  "creat_stat = \<lparr>st_mode = 420, st_atime = 0, st_mtime = 0\<rparr>"

text \<open>
  \<open>open(path, "wb")\<close> and writing \<open>d\<close>: the file is created in an existing directory or
  truncated; nothing else is created.
\<close>

definition write_file :: "node \<Rightarrow> string \<Rightarrow> byte list \<Rightarrow> error + node" where
  "write_file fs p d =
     (if p = [] then Inl FileNotFoundError
      else
        let cs = path_components p in
        if cs = [] then Inl IsADirectoryError
        else
          (case get_node fs (butlast cs) of
             Inl e \<Rightarrow> Inl e
           | Inr (File _ _) \<Rightarrow> Inl NotADirectoryError
           | Inr (Dir es) \<Rightarrow>
               (case map_of es (last cs) of
                  Some (Dir _) \<Rightarrow> Inl IsADirectoryError
                | Some (File _ s) \<Rightarrow> Inr (put_node fs cs (File d s))
                | None \<Rightarrow> Inr (put_node fs cs (File d creat_stat)))))"

text \<open>\<open>os.path.samefile\<close> inside \<open>shutil._samefile\<close>: an \<open>OSError\<close> counts as \<open>False\<close>.\<close>

definition samefile :: "node \<Rightarrow> string \<Rightarrow> string \<Rightarrow> bool" where
  "samefile fs src dst =
     (case (os_stat fs src, os_stat fs dst) of
        (Inr _, Inr _) \<Rightarrow> path_components src = path_components dst
      | _ \<Rightarrow> False)"

definition copyfile :: "string \<Rightarrow> string \<Rightarrow> node \<Rightarrow> error + node" where
  "copyfile src dst fs =
     (if samefile fs src dst then Inl SameFileError
      else
        (case read_file fs src of
           Inl e \<Rightarrow> Inl e
         | Inr d \<Rightarrow> write_file fs dst d))"

definition copystat :: "string \<Rightarrow> string \<Rightarrow> node \<Rightarrow> error + node" where
  "copystat src dst fs =
     (case os_stat fs src of
        Inl e \<Rightarrow> Inl e
      | Inr (Dir _) \<Rightarrow> Inr fs
      | Inr (File _ s) \<Rightarrow>
          (case os_stat fs dst of
             Inl e \<Rightarrow> Inl e
           | Inr (Dir _) \<Rightarrow> Inr fs
           | Inr (File d _) \<Rightarrow> Inr (put_node fs (path_components dst) (File d s))))"

definition copy2 :: "string \<Rightarrow> string \<Rightarrow> node \<Rightarrow> error + node" where
  "copy2 src dst fs =
     (let dst' = (if isdir fs dst then join dst (basename src) else dst) in
      case copyfile src dst' fs of
        Inl e \<Rightarrow> Inl e
      | Inr fs' \<Rightarrow> copystat src dst' fs')"

subsection \<open>\<open>os.path.splitext\<close>, \<open>os.path.getsize\<close>, \<open>os.walk\<close>\<close>

text \<open>
  The loop of \<open>genericpath._splitext\<close> that skips the leading dots of the file name:
  the extension starts at the last dot unless only dots stand before it.
\<close>

function splitext_loop :: "string \<Rightarrow> int \<Rightarrow> int \<Rightarrow> string \<times> string" where
  "splitext_loop p filenameIndex dotIndex =
     (if filenameIndex < dotIndex then
        (if take 1 (drop (nat filenameIndex) p) \<noteq> ''.''
         then (take (nat dotIndex) p, drop (nat dotIndex) p)
         else splitext_loop p (filenameIndex + 1) dotIndex)
      else (p, []))"
  by pat_completeness auto
termination
  by (relation "measure (\<lambda>(p, filenameIndex, dotIndex). nat (dotIndex - filenameIndex))") auto

definition splitext :: "string \<Rightarrow> string \<times> string" where
  "splitext p =
     (let sepIndex = rfind p (CHR ''/'');
          dotIndex = rfind p (CHR ''.'')
      in if dotIndex > sepIndex then splitext_loop p (sepIndex + 1) dotIndex else (p, []))"

text \<open>
  \<open>os.path.getsize\<close>: the byte count of a regular file. The size a directory reports
  depends on the file system; the program never uses it, since opening a directory fails.
\<close>

definition getsize :: "node \<Rightarrow> string \<Rightarrow> error + int" where
  "getsize fs p =
     (case os_stat fs p of
        Inl e \<Rightarrow> Inl e
      | Inr (File d _) \<Rightarrow> Inr (int (length d))
      | Inr (Dir _) \<Rightarrow> Inr 0)"

fun is_dir :: "node \<Rightarrow> bool" where
  "is_dir (Dir _) = True"
| "is_dir (File _ _) = False"



subsection \<open>\<open>filecmp.dircmp\<close>\<close>

definition DEFAULT_IGNORES :: "string list" where
  "DEFAULT_IGNORES =
     [''RCS'', ''CVS'', ''tags'', ''.git'', ''.hg'', ''.bzr'', ''_darcs'', ''__pycache__'']"

text \<open>\<open>filecmp._filter\<close>: the items of \<open>flist\<close> that do not occur in \<open>skip\<close>.\<close>

definition dircmp_filter :: "string list \<Rightarrow> string list \<Rightarrow> string list" where
  "dircmp_filter flist skip = filter (\<lambda>x. x \<notin> set skip) flist"

text \<open>
  \<open>filecmp.cmp(f1, f2, shallow=False)\<close> on two nodes: both are regular files of the same
  size with the same bytes.
\<close>

fun filecmp_cmp :: "node \<Rightarrow> node \<Rightarrow> bool" where
  "filecmp_cmp (File d1 _) (File d2 _) = (if length d1 \<noteq> length d2 then False else d1 = d2)"
| "filecmp_cmp _ _ = False"

text \<open>The attributes of a \<open>dircmp\<close> object that phases 0 to 3 compute.\<close>

record dircmp =
  left_list :: "string list"
  right_list :: "string list"
  common :: "string list"
  left_only :: "string list"
  right_only :: "string list"
  common_dirs :: "string list"
  common_files :: "string list"
  common_funny :: "string list"
  same_files :: "string list"
  diff_files :: "string list"
  funny_files :: "string list"

text \<open>
  Phase 2 for one common name: \<open>0\<close> for a directory on both sides, \<open>1\<close> for a regular file
  on both sides, \<open>2\<close> (funny) when the types differ or a side cannot be examined.
\<close>

definition phase2_kind :: "(string \<times> node) list \<Rightarrow> (string \<times> node) list \<Rightarrow> string \<Rightarrow> nat" where
  "phase2_kind left right x =
     (case (map_of left x, map_of right x) of
        (Some a, Some b) \<Rightarrow>
          if is_dir a \<noteq> is_dir b then 2
          else if is_dir a then 0
          else 1
      | _ \<Rightarrow> 2)"

text \<open>
  \<open>filecmp._cmp\<close> for one common file with \<open>shallow=False\<close>: \<open>0\<close> for equal, \<open>1\<close> for
  different, \<open>2\<close> when a side cannot be examined.
\<close>

definition phase3_kind :: "(string \<times> node) list \<Rightarrow> (string \<times> node) list \<Rightarrow> string \<Rightarrow> nat" where
  "phase3_kind left right x =
     (case (map_of left x, map_of right x) of
        (Some a, Some b) \<Rightarrow> if filecmp_cmp a b then 0 else 1
      | _ \<Rightarrow> 2)"

text \<open>
  \<open>dircmp(left, right, ignore, shallow=False)\<close> of Python 3.13 on the entries of two
  directories. \<open>ignore=None\<close> selects \<open>DEFAULT_IGNORES\<close>; the hidden names are \<open>.\<close> and \<open>..\<close>.
  A name of the listing stands for the entry of that name.
\<close>

definition dircmp_new ::
  "(string \<times> node) list \<Rightarrow> (string \<times> node) list \<Rightarrow> string list option \<Rightarrow> dircmp" where
  "dircmp_new left right ignore =
     (let hide = [''.'', ''..''];
          ign = (case ignore of None \<Rightarrow> DEFAULT_IGNORES | Some l \<Rightarrow> l);
          ll = sort (dircmp_filter (map fst left) (hide @ ign));
          rl = sort (dircmp_filter (map fst right) (hide @ ign));
          a = remdups ll;
          b = remdups rl;
          cm = filter (\<lambda>x. x \<in> set b) a;
          cf = filter (\<lambda>x. phase2_kind left right x = 1) cm
      in \<lparr>left_list = ll, right_list = rl, common = cm,
          left_only = filter (\<lambda>x. x \<notin> set b) a,
          right_only = filter (\<lambda>x. x \<notin> set a) b,
          common_dirs = filter (\<lambda>x. phase2_kind left right x = 0) cm,
          common_files = cf,
          common_funny = filter (\<lambda>x. phase2_kind left right x = 2) cm,
          same_files = filter (\<lambda>x. phase3_kind left right x = 0) cf,
          diff_files = filter (\<lambda>x. phase3_kind left right x = 1) cf,
          funny_files = filter (\<lambda>x. phase3_kind left right x = 2) cf\<rparr>)"

subsection \<open>\<open>hashlib\<close>\<close>

text \<open>
  A hash algorithm of \<open>hashlib\<close>, as the program uses it: the fresh hash object, \<open>update\<close>
  and \<open>hexdigest\<close>. The functions take it as a parameter; \<open>main.py\<close> passes
  \<open>hashlib.sha256\<close>.
\<close>

record 'h hash_algorithm =
  hash_new :: 'h
  hash_update :: "'h \<Rightarrow> byte list \<Rightarrow> 'h"
  hash_hexdigest :: "'h \<Rightarrow> string"

text \<open>
  What \<open>hashlib\<close> documents for every algorithm: repeated calls of \<open>update\<close> are
  equivalent to a single call with the concatenation of the arguments (and so a call
  with no data to none).
\<close>

definition streaming :: "'h hash_algorithm \<Rightarrow> bool" where
  "streaming H \<longleftrightarrow>
     (\<forall>h. hash_update H h [] = h) \<and>
     (\<forall>h a b. hash_update H (hash_update H h a) b = hash_update H h (a @ b))"

section \<open>\<open>main.py\<close>\<close>

subsection \<open>\<open>Action\<close>, \<open>Result\<close>, \<open>FileMetadata\<close>\<close>

datatype Action = COPY | MODIFY | NO_ACTION

fun Action_value :: "Action \<Rightarrow> string" where
  "Action_value COPY = ''copy''"
| "Action_value MODIFY = ''modify''"
| "Action_value NO_ACTION = ''no_action''"

definition get_name :: "Action \<Rightarrow> string" where
  "get_name a = str_join [CHR 0x20] (map capitalize (str_split (CHR ''_'') (Action_value a)))"

definition mutation_options :: "Action set" where
  "mutation_options = {COPY, MODIFY}"

text \<open>
  Iterating over a Python set visits each member once, in an order the hash values fix;
  the hash of an enumeration member is the hash of its name, which is salted for each
  process. \<open>set_iteration S xs\<close> says that \<open>xs\<close> is such an order.
\<close>

definition set_iteration :: "'a set \<Rightarrow> 'a list \<Rightarrow> bool" where
  "set_iteration S xs \<longleftrightarrow> distinct xs \<and> set xs = S"

record Result =
  source_path :: string
  target_path :: string
  action :: Action

type_synonym result_tuple = "string \<times> string \<times> Action"


subsection \<open>\<open>get_file_hash\<close> and \<open>get_file_metadata\<close>\<close>

record FileMetadata =
  file_extension :: string
  file_size :: int
  file_hash :: string


text \<open>
  The loop \<open>for chunk in iter(lambda: file.read(block_size), b"")\<close>: \<open>remaining\<close> is what
  the open file has left to read; the loop ends at the first empty chunk.
\<close>

function read_loop :: "'h hash_algorithm \<Rightarrow> nat \<Rightarrow> byte list \<Rightarrow> 'h \<Rightarrow> 'h" where
  "read_loop H block_size remaining hash_obj =
     (if take block_size remaining = [] then hash_obj
      else read_loop H block_size (drop block_size remaining)
             (hash_update H hash_obj (take block_size remaining)))"
  by pat_completeness auto
termination
  by (relation "measure (\<lambda>(H, block_size, remaining, hash_obj). length remaining)") auto

definition get_file_hash :: "'h hash_algorithm \<Rightarrow> nat \<Rightarrow> node \<Rightarrow> string \<Rightarrow> error + string" where
  "get_file_hash H block_size fs file_path =
     (case read_file fs file_path of
        Inl e \<Rightarrow> Inl e
      | Inr d \<Rightarrow> Inr (hash_hexdigest H (read_loop H block_size d (hash_new H))))"

definition get_file_metadata :: "'h hash_algorithm \<Rightarrow> node \<Rightarrow> string \<Rightarrow> error + FileMetadata" where
  "get_file_metadata H fs file_path =
     (let ext = snd (splitext file_path) in
      case getsize fs file_path of
        Inl e \<Rightarrow> Inl e
      | Inr sz \<Rightarrow>
          (case get_file_hash H 4096 fs file_path of
             Inl e \<Rightarrow> Inl e
           | Inr h \<Rightarrow> Inr \<lparr>file_extension = ext, file_size = sz, file_hash = h\<rparr>))"

subsection \<open>\<open>compare_directories\<close>\<close>





subsection \<open>\<open>group_by\<close>\<close>

text \<open>
  The grouper is a callable here (\<open>do_action\<close> passes \<open>itemgetter(2)\<close>); the dictionary
  is a \<open>defaultdict(list)\<close>, so a key's list starts empty and grows at its end.
\<close>

definition group_by_step :: "('a \<Rightarrow> 'k) \<Rightarrow> ('k \<rightharpoonup> 'a list) \<Rightarrow> 'a \<Rightarrow> ('k \<rightharpoonup> 'a list)" where
  "group_by_step grouper grouped thing =
     grouped(grouper thing \<mapsto>
       (case grouped (grouper thing) of None \<Rightarrow> [] | Some l \<Rightarrow> l) @ [thing])"

definition group_by :: "'a list \<Rightarrow> ('a \<Rightarrow> 'k) \<Rightarrow> ('k \<rightharpoonup> 'a list)" where
  "group_by things grouper = foldl (group_by_step grouper) Map.empty things"

text \<open>\<open>dict.get(key, [])\<close>.\<close>

definition dict_get :: "('k \<rightharpoonup> 'a list) \<Rightarrow> 'k \<Rightarrow> 'a list" where
  "dict_get d k = (case d k of None \<Rightarrow> [] | Some l \<Rightarrow> l)"

subsection \<open>\<open>do_action\<close>\<close>

text \<open>What the process can change: the file system and the lines printed so far.\<close>

record world =
  fs :: node
  stdout :: "string list"

definition print :: "string \<Rightarrow> world \<Rightarrow> world" where
  "print line w = w\<lparr>stdout := stdout w @ [line]\<rparr>"

text \<open>The first loop of \<open>do_action\<close>, over \<open>to_be_skipped\<close>.\<close>

fun skip_loop :: "result_tuple list \<Rightarrow> world \<Rightarrow> world" where
  "skip_loop [] w = w"
| "skip_loop ((src, dst, _) # rest) w =
     skip_loop rest (print (''No action: '' @ src) w)"

text \<open>
  The body of the second loop. An exception of \<open>shutil.copy2\<close> leaves the loop and
  \<open>do_action\<close> before the line is printed.
\<close>

definition mutate_step :: "bool \<Rightarrow> result_tuple \<Rightarrow> world \<Rightarrow> error option \<times> world" where
  "mutate_step dry_run r w =
     (case r of (src, dst, act) \<Rightarrow>
        let out = get_name act @ '': '' @ src @ '' -> '' @ dst in
        if dry_run then (None, print (out @ '' (dry run)'') w)
        else
          (case copy2 src dst (fs w) of
             Inl e \<Rightarrow> (Some e, w)
           | Inr fs' \<Rightarrow> (None, print out (w\<lparr>fs := fs'\<rparr>))))"

fun mutate_loop :: "bool \<Rightarrow> result_tuple list \<Rightarrow> world \<Rightarrow> error option \<times> world" where
  "mutate_loop dry_run [] w = (None, w)"
| "mutate_loop dry_run (r # rest) w =
     (case mutate_step dry_run r w of
        (Some e, w') \<Rightarrow> (Some e, w')
      | (None, w') \<Rightarrow> mutate_loop dry_run rest w')"

text \<open>\<open>itemgetter(2)\<close> on a result tuple.\<close>

definition itemgetter2 :: "result_tuple \<Rightarrow> Action" where
  "itemgetter2 r = snd (snd r)"

text \<open>
  \<open>do_action results dry_run\<close>; \<open>opts\<close> is the order in which the set
  \<open>Action.mutation_options()\<close> is iterated. The result is the exception that ended the
  call, if any, and the world it left.
\<close>

definition do_action ::
  "Action list \<Rightarrow> result_tuple list \<Rightarrow> bool \<Rightarrow> world \<Rightarrow> error option \<times> world" where
  "do_action opts results dry_run w =
     (let grouped = group_by results itemgetter2;
          to_be_skipped = dict_get grouped NO_ACTION;
          w1 = (if to_be_skipped \<noteq> [] then skip_loop to_be_skipped w else w)
      in mutate_loop dry_run (concat (map (\<lambda>key. dict_get grouped key) opts)) w1)"

subsection \<open>\<open>are_directories_equal\<close>\<close>

text \<open>
  \<open>are_directories_equal\<close> on the nodes of the two directories, with the loop over
  \<open>comparison.common_dirs\<close>; \<open>join(dir1, common_dir)\<close> is the entry of that name. Listing
  something that is no directory raises \<open>NotADirectoryError\<close>.
\<close>

function are_directories_equal_node :: "node \<Rightarrow> node \<Rightarrow> error + bool"
  and common_dirs_loop ::
    "(string \<times> node) list \<Rightarrow> (string \<times> node) list \<Rightarrow> string list \<Rightarrow> error + bool" where
  "are_directories_equal_node (File d s) n2 = Inl NotADirectoryError"
| "are_directories_equal_node (Dir es1) (File d s) = Inl NotADirectoryError"
| "are_directories_equal_node (Dir es1) (Dir es2) =
     (let comparison = dircmp_new es1 es2 None in
      if left_only comparison \<noteq> [] \<or> right_only comparison \<noteq> [] \<or>
         diff_files comparison \<noteq> [] \<or> funny_files comparison \<noteq> []
      then Inr False
      else common_dirs_loop es1 es2 (common_dirs comparison))"
| "common_dirs_loop es1 es2 [] = Inr True"
| "common_dirs_loop es1 es2 (common_dir # rest) =
     (case map_of es1 common_dir of
        None \<Rightarrow> Inl FileNotFoundError
      | Some new_dir1 \<Rightarrow>
          (case map_of es2 common_dir of
             None \<Rightarrow> Inl FileNotFoundError
           | Some new_dir2 \<Rightarrow>
               (case are_directories_equal_node new_dir1 new_dir2 of
                  Inl e \<Rightarrow> Inl e
                | Inr b \<Rightarrow> if \<not> b then Inr False else common_dirs_loop es1 es2 rest)))"
  by pat_completeness auto
termination
proof -
  have child: "size n < size (Dir es)" if "map_of es x = Some n"
    for es :: "(string \<times> node) list" and x and n :: node
    using that by (induction es) (auto split: if_splits)
  show ?thesis
    by (relation "inv_image (less_than <*lex*> less_than)
          (\<lambda>x. case x of
             Inl (n1, n2) \<Rightarrow> (2 * size n1 + 1, 0)
           | Inr (es1, es2, xs) \<Rightarrow> (2 * size (Dir es1), length xs))")
       (auto dest!: child)
qed

text \<open>
  \<open>are_directories_equal(dir1, dir2)\<close>: the left directory is listed first, then the
  right one.
\<close>

definition are_directories_equal :: "node \<Rightarrow> string \<Rightarrow> string \<Rightarrow> error + bool" where
  "are_directories_equal fsys dir1 dir2 =
     (case os_stat fsys dir1 of
        Inl e \<Rightarrow> Inl e
      | Inr (File _ _) \<Rightarrow> Inl NotADirectoryError
      | Inr (Dir es1) \<Rightarrow>
          (case os_stat fsys dir2 of
             Inl e \<Rightarrow> Inl e
           | Inr n2 \<Rightarrow> are_directories_equal_node (Dir es1) n2))"
subsection \<open>Reference notions for the apply step\<close>

text \<open>The line \<open>do_action\<close> prints for an entry: the two \<open>print\<close> calls of its loops.\<close>

fun report_line :: "bool \<Rightarrow> result_tuple \<Rightarrow> string" where
  "report_line dry_run (src, dst, act) =
     (if act = NO_ACTION then ''No action: '' @ src
      else get_name act @ '': '' @ src @ '' -> '' @ dst @ (if dry_run then '' (dry run)'' else []))"

text \<open>
  Handling the entries of a list one after the other, in the order of the list: an entry
  without action is reported, any other entry goes through the body of the second loop,
  and the first exception ends the run. \<open>do_action\<close> is compared with this.
\<close>

fun apply_in_order :: "bool \<Rightarrow> result_tuple list \<Rightarrow> world \<Rightarrow> error option \<times> world" where
  "apply_in_order dry_run [] w = (None, w)"
| "apply_in_order dry_run (r # rest) w =
     (if itemgetter2 r = NO_ACTION
      then apply_in_order dry_run rest (print (report_line dry_run r) w)
      else
        (case mutate_step dry_run r w of
           (Some e, w') \<Rightarrow> (Some e, w')
         | (None, w') \<Rightarrow> apply_in_order dry_run rest w'))"

text \<open>The order in which \<open>do_action\<close> visits the entries: one block for each kind.\<close>

definition grouped_order :: "Action list \<Rightarrow> result_tuple list \<Rightarrow> result_tuple list" where
  "grouped_order opts rs =
     filter (\<lambda>r. itemgetter2 r = NO_ACTION) rs @
     concat (map (\<lambda>k. filter (\<lambda>r. itemgetter2 r = k) rs) opts)"

text \<open>
  The order the specification describes: the entries without action first, then the
  copy and modify entries together as they follow each other in the results.
\<close>

definition discovery_order :: "result_tuple list \<Rightarrow> result_tuple list" where
  "discovery_order rs =
     filter (\<lambda>r. itemgetter2 r = NO_ACTION) rs @
     filter (\<lambda>r. itemgetter2 r \<in> mutation_options) rs"

subsection \<open>Reference notions for the fingerprint\<close>

text \<open>
  Cutting data into successive chunks of \<open>n\<close> items, the last one possibly shorter: what
  repeated \<open>file.read(n)\<close> returns before the empty chunk at the end of the file.
\<close>

function chunks :: "nat \<Rightarrow> 'a list \<Rightarrow> 'a list list" where
  "chunks n xs = (if take n xs = [] then [] else take n xs # chunks n (drop n xs))"
  by pat_completeness auto
termination
  by (relation "measure (\<lambda>(n, xs). length xs)") auto

text \<open>
  The extension as the specification words it: the substring after the last dot of the
  part after the last path separator, empty when that part has no dot.
\<close>

definition spec_extension :: "string \<Rightarrow> string" where
  "spec_extension p =
     (let base = basename p
      in if CHR ''.'' \<in> set base then rev (takeWhile (\<lambda>c. c \<noteq> CHR ''.'') (rev base)) else [])"

subsection \<open>Reference notions for the comparison\<close>







subsection \<open>Reference notions for the equality of directories\<close>

text \<open>
  The relative paths below a node, each as the list of its components: every entry of a
  directory, and below an entry that is a directory its relative paths in turn.
\<close>

fun rel_paths :: "node \<Rightarrow> string list list"
  and rel_paths_entries :: "(string \<times> node) list \<Rightarrow> string list list" where
  "rel_paths (File _ _) = []"
| "rel_paths (Dir es) = rel_paths_entries es"
| "rel_paths_entries [] = []"
| "rel_paths_entries (e # es) =
     ([fst e] # map ((#) (fst e)) (rel_paths (snd e))) @ rel_paths_entries es"

text \<open>Where a path names a regular file in both trees, the two files have the same bytes.\<close>

definition files_agree :: "node \<Rightarrow> node \<Rightarrow> string list \<Rightarrow> bool" where
  "files_agree t1 t2 p =
     (case (get_node t1 p, get_node t2 p) of
        (Inr (File d1 _), Inr (File d2 _)) \<Rightarrow> d1 = d2
      | _ \<Rightarrow> True)"

text \<open>
  Equality of two trees as the specification states it: identical sets of relative paths,
  and every pair of regular files at the same relative path is byte-identical.
\<close>

definition directories_identical :: "node \<Rightarrow> node \<Rightarrow> bool" where
  "directories_identical t1 t2 \<longleftrightarrow>
     set (rel_paths t1) = set (rel_paths t2) \<and>
     (\<forall>p \<in> set (rel_paths t1). files_agree t1 t2 p)"





subsection \<open>Example inputs\<close>

definition example_stat :: stat_result where
  "example_stat = \<lparr>st_mode = 493, st_atime = 1700000000, st_mtime = 1600000000\<rparr>"

text \<open>
  A source tree \<open>/s\<close> with four files and a subdirectory, and a target tree \<open>/t\<close> that
  has two of the files with other content and one with the same content.
\<close>

definition example_fs :: node where
  "example_fs =
     Dir [(''s'', Dir [(''a'', File [1, 2] example_stat),
                       (''b'', File [3] example_stat),
                       (''c'', File [4] example_stat),
                       (''n'', File [7] example_stat),
                       (''d'', Dir [(''e'', File [5] example_stat)])]),
          (''t'', Dir [(''a'', File [9] creat_stat),
                       (''c'', File [8, 8] creat_stat),
                       (''n'', File [7] creat_stat)])]"

definition example_world :: world where
  "example_world = \<lparr>fs = example_fs, stdout = []\<rparr>"

definition example_results :: "result_tuple list" where
  "example_results =
     [(''/s/a'', ''/t/a'', MODIFY), (''/s/b'', ''/t/b'', COPY), (''/s/c'', ''/t/c'', MODIFY)]"

text \<open>
  Two copy entries as \<open>compare_directories\<close> reports them for the example: the first
  goes into the directory \<open>/t/d\<close>, which does not exist.
\<close>

definition failing_results :: "result_tuple list" where
  "failing_results = [(''/s/d/e'', ''/t/d/e'', COPY), (''/s/b'', ''/t/b'', COPY)]"

text \<open>
  A hash algorithm for the examples: the state is the data fed so far, the digest its
  hexadecimal dump. It has the interface of a \<open>hashlib\<close> algorithm and is streaming.
\<close>

definition hex_digit :: "nat \<Rightarrow> char" where
  "hex_digit n = ''0123456789abcdef'' ! (n mod 16)"

definition example_hash :: "(byte list) hash_algorithm" where
  "example_hash =
     \<lparr>hash_new = [],
      hash_update = (\<lambda>h d. h @ d),
      hash_hexdigest = (\<lambda>h. concat (map (\<lambda>b. [hex_digit (unat b div 16), hex_digit (unat b)]) h))\<rparr>"


text \<open>A directory with a file \<open>notes.txt\<close> holding the bytes of \<open>hi\<close> and an empty file \<open>.profile\<close>.\<close>

definition dotted_fs :: node where
  "dotted_fs =
     Dir [(''u'', Dir [(''notes.txt'', File [104, 105] example_stat),
                       (''.profile'', File [] example_stat)])]"

text \<open>A source file \<open>x\<close> whose target path \<open>/t/x\<close> is a directory.\<close>

definition clash_fs :: node where
  "clash_fs =
     Dir [(''s'', Dir [(''x'', File [1] example_stat)]),
          (''t'', Dir [(''x'', Dir [(''y'', File [2] example_stat)])])]"


section \<open>Properties of \<open>group_by\<close> and \<open>do_action\<close>\<close>

lemma get_name_values:
  "get_name COPY = ''Copy''" "get_name MODIFY = ''Modify''" "get_name NO_ACTION = ''No Action''"
  by code_simp+

lemma foldl_group_by_step:
  "dict_get (foldl (group_by_step g) m xs) k = dict_get m k @ filter (\<lambda>t. g t = k) xs"
  by (induction xs arbitrary: m) (auto simp: group_by_step_def dict_get_def)

text \<open>A key's list holds the things of that key in the order of the input.\<close>

lemma dict_get_group_by: "dict_get (group_by things g) k = filter (\<lambda>t. g t = k) things"
  by (simp add: group_by_def foldl_group_by_step) (simp add: dict_get_def)

lemma dict_get_group_by_fun:
  "dict_get (group_by things g) = (\<lambda>k. filter (\<lambda>t. g t = k) things)"
  by (rule ext) (rule dict_get_group_by)

lemma skip_loop_apply:
  "\<forall>r \<in> set xs. itemgetter2 r = NO_ACTION \<Longrightarrow>
   apply_in_order dry (xs @ ys) w = apply_in_order dry ys (skip_loop xs w)"
  by (induction xs arbitrary: w) (auto simp: itemgetter2_def)

lemma mutate_loop_apply:
  "\<forall>r \<in> set xs. itemgetter2 r \<noteq> NO_ACTION \<Longrightarrow>
   apply_in_order dry xs w = mutate_loop dry xs w"
  by (induction xs arbitrary: w) (auto split: prod.splits option.splits)

lemma do_action_unfold:
  "do_action opts rs dry w =
     mutate_loop dry (concat (map (\<lambda>k. filter (\<lambda>r. itemgetter2 r = k) rs) opts))
       (skip_loop (filter (\<lambda>r. itemgetter2 r = NO_ACTION) rs) w)"
  by (simp add: do_action_def Let_def dict_get_group_by_fun)

lemma do_action_apply_in_order:
  assumes "NO_ACTION \<notin> set opts"
  shows "do_action opts rs dry w = apply_in_order dry (grouped_order opts rs) w"
proof -
  have "\<forall>r \<in> set (concat (map (\<lambda>k. filter (\<lambda>r. itemgetter2 r = k) rs) opts)).
          itemgetter2 r \<noteq> NO_ACTION"
    using assms by auto
  then show ?thesis
    by (simp add: do_action_unfold grouped_order_def skip_loop_apply mutate_loop_apply)
qed

text \<open>The set \<open>{COPY, MODIFY}\<close> has two iteration orders.\<close>

lemma set_iteration_mutation_options:
  "set_iteration mutation_options opts \<longleftrightarrow> opts = [COPY, MODIFY] \<or> opts = [MODIFY, COPY]"
proof
  assume h: "set_iteration mutation_options opts"
  then have d: "distinct opts" and s: "set opts = {COPY, MODIFY}"
    by (simp_all add: set_iteration_def mutation_options_def)
  from d s have "length opts = card {COPY, MODIFY}"
    using distinct_card by fastforce
  then have "length opts = 2" by simp
  then obtain a b where ab: "opts = [a, b]"
    by (auto simp: length_Suc_conv numeral_2_eq_2)
  with d s show "opts = [COPY, MODIFY] \<or> opts = [MODIFY, COPY]"
    by (auto simp: doubleton_eq_iff)
next
  assume "opts = [COPY, MODIFY] \<or> opts = [MODIFY, COPY]"
  then show "set_iteration mutation_options opts"
    by (auto simp: set_iteration_def mutation_options_def)
qed

lemma filter_kind_kind:
  "filter (\<lambda>r. itemgetter2 r = k) (filter (\<lambda>r. itemgetter2 r = k') rs) =
     (if k = k' then filter (\<lambda>r. itemgetter2 r = k) rs else [])"
  by (induction rs) auto

lemma filter_grouped_order:
  assumes "set_iteration mutation_options opts"
  shows "filter (\<lambda>r. itemgetter2 r = k) (grouped_order opts rs) = filter (\<lambda>r. itemgetter2 r = k) rs"
proof -
  from assms have "opts = [COPY, MODIFY] \<or> opts = [MODIFY, COPY]"
    by (simp add: set_iteration_mutation_options)
  then show ?thesis
    by (cases k) (auto simp: grouped_order_def filter_kind_kind)
qed

lemma skip_loop_fs: "fs (skip_loop xs w) = fs w"
  by (induction xs w rule: skip_loop.induct) (simp_all add: print_def)

lemma mutate_loop_dry_fs:
  "fst (mutate_loop True xs w) = None \<and> fs (snd (mutate_loop True xs w)) = fs w"
  by (induction xs arbitrary: w) (simp_all add: mutate_step_def print_def split: prod.splits)

lemma apply_in_order_dry:
  "apply_in_order True seq w = (None, w\<lparr>stdout := stdout w @ map (report_line True) seq\<rparr>)"
  by (induction seq arbitrary: w)
     (auto simp: mutate_step_def print_def itemgetter2_def split: prod.splits)

text \<open>
  Claim C4 (dry-run purity). For every results list, and whatever the iteration order of
  the option set, \<open>do_action\<close> with \<open>dry_run = True\<close> ends without an exception and leaves
  the whole file system, and so the target tree, as it was: no copy is executed.
\<close>

theorem do_action_dry_run_no_write:
  "fst (do_action opts results True w) = None \<and> fs (snd (do_action opts results True w)) = fs w"
  by (simp add: do_action_unfold mutate_loop_dry_fs skip_loop_fs)

theorem do_action_dry_run_no_write_witness:
  "fst (do_action [MODIFY, COPY] example_results True example_world) = None \<and>
   fs (snd (do_action [MODIFY, COPY] example_results True example_world)) = example_fs"
  using do_action_dry_run_no_write [of "[MODIFY, COPY]" example_results example_world]
  by (simp add: example_world_def)

text \<open>
  Claim C10 (stable grouping). Whichever way the option set is iterated, \<open>do_action\<close>
  handles the entries one after the other in an order \<open>seq\<close> that, for every single
  action kind, holds the entries of that kind exactly as they follow each other in the
  input; on a dry run the lines printed are the lines of \<open>seq\<close>, and otherwise the copies
  are made in the order of \<open>seq\<close>.
\<close>

theorem do_action_stable_grouping:
  assumes "set_iteration mutation_options opts"
  shows "\<exists>seq. (\<forall>k. filter (\<lambda>r. itemgetter2 r = k) seq = filter (\<lambda>r. itemgetter2 r = k) results) \<and>
           do_action opts results dry_run w = apply_in_order dry_run seq w \<and>
           do_action opts results True w =
             (None, w\<lparr>stdout := stdout w @ map (report_line True) seq\<rparr>)"
proof -
  from assms have "NO_ACTION \<notin> set opts"
    by (auto simp: set_iteration_mutation_options)
  then have "\<And>d. do_action opts results d w = apply_in_order d (grouped_order opts results) w"
    by (rule do_action_apply_in_order)
  moreover have "\<forall>k. filter (\<lambda>r. itemgetter2 r = k) (grouped_order opts results)
      = filter (\<lambda>r. itemgetter2 r = k) results"
    using assms by (simp add: filter_grouped_order)
  ultimately show ?thesis
    by (metis apply_in_order_dry)
qed

theorem do_action_stable_grouping_witness:
  "\<exists>seq. (\<forall>k. filter (\<lambda>r. itemgetter2 r = k) seq
                = filter (\<lambda>r. itemgetter2 r = k) example_results) \<and>
         do_action [MODIFY, COPY] example_results False example_world
           = apply_in_order False seq example_world \<and>
         do_action [MODIFY, COPY] example_results True example_world =
           (None, example_world\<lparr>stdout := stdout example_world @ map (report_line True) seq\<rparr>)"
  by (rule do_action_stable_grouping) (simp add: set_iteration_mutation_options)

text \<open>
  Claim C3 (order of the apply step), as amended. The entries without action are
  reported first as one block. The copy and modify entries follow as two blocks, one for
  each kind, in the order in which the option set is iterated; inside a block the entries
  keep the order of the results. The two kinds are not interleaved.
\<close>

theorem do_action_grouped_by_kind:
  assumes "set_iteration mutation_options opts"
  shows "(opts = [COPY, MODIFY] \<or> opts = [MODIFY, COPY]) \<and>
         do_action opts results dry_run w =
           apply_in_order dry_run
             (filter (\<lambda>r. itemgetter2 r = NO_ACTION) results @
              filter (\<lambda>r. itemgetter2 r = hd opts) results @
              filter (\<lambda>r. itemgetter2 r = hd (tl opts)) results) w \<and>
         do_action opts results True w =
           (None, w\<lparr>stdout := stdout w @
              map (report_line True) (filter (\<lambda>r. itemgetter2 r = NO_ACTION) results) @
              map (report_line True) (filter (\<lambda>r. itemgetter2 r = hd opts) results) @
              map (report_line True) (filter (\<lambda>r. itemgetter2 r = hd (tl opts)) results)\<rparr>)"
proof -
  from assms have o: "opts = [COPY, MODIFY] \<or> opts = [MODIFY, COPY]"
    by (simp add: set_iteration_mutation_options)
  then have n: "NO_ACTION \<notin> set opts" by auto
  from o have g: "grouped_order opts results =
      filter (\<lambda>r. itemgetter2 r = NO_ACTION) results @
      filter (\<lambda>r. itemgetter2 r = hd opts) results @
      filter (\<lambda>r. itemgetter2 r = hd (tl opts)) results"
    by (auto simp: grouped_order_def)
  have "\<And>d. do_action opts results d w = apply_in_order d (grouped_order opts results) w"
    using n by (rule do_action_apply_in_order)
  then show ?thesis using o g by (simp add: apply_in_order_dry)
qed

theorem do_action_grouped_by_kind_witness:
  "do_action [MODIFY, COPY] example_results True example_world =
     (None, example_world\<lparr>stdout :=
        [''Modify: /s/a -> /t/a (dry run)'', ''Modify: /s/c -> /t/c (dry run)'',
         ''Copy: /s/b -> /t/b (dry run)'']\<rparr>)"
proof -
  have "set_iteration mutation_options [MODIFY, COPY]"
    by (simp add: set_iteration_mutation_options)
  note do_action_grouped_by_kind [OF this, of example_results True example_world,
      THEN conjunct2, THEN conjunct2]
  then show ?thesis
    by (simp add: example_results_def itemgetter2_def get_name_values example_world_def)
qed

text \<open>
  The claim as the specification states it fails: for the results modify, copy, modify
  neither iteration order prints the lines in the order of the results.
\<close>

theorem do_action_interleaved_counterexample:
  "stdout (snd (do_action [COPY, MODIFY] example_results True example_world)) =
     [''Copy: /s/b -> /t/b (dry run)'', ''Modify: /s/a -> /t/a (dry run)'',
      ''Modify: /s/c -> /t/c (dry run)''] \<and>
   stdout (snd (do_action [MODIFY, COPY] example_results True example_world)) =
     [''Modify: /s/a -> /t/a (dry run)'', ''Modify: /s/c -> /t/c (dry run)'',
      ''Copy: /s/b -> /t/b (dry run)''] \<and>
   map (report_line True) (discovery_order example_results) =
     [''Modify: /s/a -> /t/a (dry run)'', ''Copy: /s/b -> /t/b (dry run)'',
      ''Modify: /s/c -> /t/c (dry run)''] \<and>
   stdout (snd (do_action [COPY, MODIFY] example_results True example_world))
     \<noteq> map (report_line True) (discovery_order example_results) \<and>
   stdout (snd (do_action [MODIFY, COPY] example_results True example_world))
     \<noteq> map (report_line True) (discovery_order example_results)"
  by (simp add: do_action_unfold example_results_def itemgetter2_def discovery_order_def
      mutation_options_def mutate_step_def print_def get_name_values example_world_def)

section \<open>Paths and the file tree\<close>

















section \<open>\<open>shutil.copy2\<close> and the failure of a copy\<close>




lemma apply_in_order_append:
  "apply_in_order dry (xs @ ys) w =
     (case apply_in_order dry xs w of
        (Some e, w') \<Rightarrow> (Some e, w')
      | (None, w') \<Rightarrow> apply_in_order dry ys w')"
  by (induction xs arbitrary: w) (auto split: prod.splits option.splits)

lemma mutate_step_failure:
  "copy2 (fst r) (fst (snd r)) (fs w) = Inl e \<Longrightarrow> mutate_step False r w = (Some e, w)"
  by (cases r) (simp add: mutate_step_def)


text \<open>
  Claim C2 (a failing copy), as amended. A copy that fails is not isolated: the exception
  of \<open>shutil.copy2\<close> ends \<open>do_action\<close> at that entry. The entries handled before it stay
  applied and reported; the failing entry and every entry after it are neither copied nor
  reported, and nothing is collected for a final report.
\<close>

theorem do_action_stops_at_failure:
  assumes "set_iteration mutation_options opts"
    and "grouped_order opts results = pre @ r # post"
    and "itemgetter2 r \<noteq> NO_ACTION"
    and "apply_in_order False pre w = (None, w1)"
    and "copy2 (fst r) (fst (snd r)) (fs w1) = Inl e"
  shows "do_action opts results False w = (Some e, w1)"
proof -
  from assms(1) have "NO_ACTION \<notin> set opts"
    by (auto simp: set_iteration_mutation_options)
  then have "do_action opts results False w = apply_in_order False (pre @ r # post) w"
    using assms(2) by (simp add: do_action_apply_in_order)
  also have "\<dots> = apply_in_order False (r # post) w1"
    using assms(4) by (simp add: apply_in_order_append)
  also have "\<dots> = (Some e, w1)"
    using assms(3) mutate_step_failure [OF assms(5)] by simp
  finally show ?thesis .
qed

lemma copy2_example_fails: "copy2 ''/s/d/e'' ''/t/d/e'' example_fs = Inl FileNotFoundError"
  by code_simp

theorem do_action_stops_at_failure_witness:
  "do_action [COPY, MODIFY] failing_results False example_world
     = (Some FileNotFoundError, example_world)"
proof (rule do_action_stops_at_failure)
  show "set_iteration mutation_options [COPY, MODIFY]"
    by (simp add: set_iteration_mutation_options)
  show "grouped_order [COPY, MODIFY] failing_results
          = [] @ (''/s/d/e'', ''/t/d/e'', COPY) # [(''/s/b'', ''/t/b'', COPY)]"
    by (simp add: grouped_order_def failing_results_def itemgetter2_def)
  show "itemgetter2 (''/s/d/e'', ''/t/d/e'', COPY) \<noteq> NO_ACTION"
    by (simp add: itemgetter2_def)
  show "apply_in_order False [] example_world = (None, example_world)"
    by simp
  show "copy2 (fst (''/s/d/e'', ''/t/d/e'', COPY)) (fst (snd (''/s/d/e'', ''/t/d/e'', COPY)))
          (fs example_world) = Inl FileNotFoundError"
    by (simp add: example_world_def copy2_example_fails)
qed

lemma copy2_example_succeeds:
  "(case copy2 ''/s/b'' ''/t/b'' example_fs of Inl _ \<Rightarrow> False | Inr fs' \<Rightarrow> isfile fs' ''/t/b'')"
  by code_simp

lemma isfile_example_b: "\<not> isfile example_fs ''/t/b''"
  by code_simp

text \<open>
  The claim as the specification states it fails: the first copy fails, since \<open>/t/d\<close>
  does not exist, and the second entry, whose copy would succeed, is neither copied nor
  reported.
\<close>

theorem do_action_isolation_counterexample:
  "fst (do_action [COPY, MODIFY] failing_results False example_world) = Some FileNotFoundError \<and>
   fst (do_action [MODIFY, COPY] failing_results False example_world) = Some FileNotFoundError \<and>
   (case copy2 ''/s/b'' ''/t/b'' example_fs of Inl _ \<Rightarrow> False | Inr fs' \<Rightarrow> isfile fs' ''/t/b'') \<and>
   \<not> isfile (fs (snd (do_action [COPY, MODIFY] failing_results False example_world))) ''/t/b'' \<and>
   \<not> isfile (fs (snd (do_action [MODIFY, COPY] failing_results False example_world))) ''/t/b'' \<and>
   stdout (snd (do_action [COPY, MODIFY] failing_results False example_world)) = [] \<and>
   stdout (snd (do_action [MODIFY, COPY] failing_results False example_world)) = []"
proof -
  have a: "do_action [COPY, MODIFY] failing_results False example_world
      = (Some FileNotFoundError, example_world)"
    by (simp add: do_action_unfold failing_results_def itemgetter2_def mutate_step_def
        example_world_def copy2_example_fails)
  have b: "do_action [MODIFY, COPY] failing_results False example_world
      = (Some FileNotFoundError, example_world)"
    by (simp add: do_action_unfold failing_results_def itemgetter2_def mutate_step_def
        example_world_def copy2_example_fails)
  have c: "fs example_world = example_fs" "stdout example_world = []"
    by (simp_all add: example_world_def)
  show ?thesis
    using copy2_example_succeeds isfile_example_b by (simp add: a b c)
qed










section \<open>The fingerprint of a file\<close>

declare chunks.simps [simp del] read_loop.simps [simp del] splitext_loop.simps [simp del]

lemma read_loop_chunks:
  "read_loop H n d h = foldl (hash_update H) h (chunks n d)"
proof (induction H n d h rule: read_loop.induct)
  case (1 H n d h)
  show ?case
  proof (cases "take n d = []")
    case True
    then show ?thesis
      by (subst read_loop.simps, subst chunks.simps) simp
  next
    case False
    then show ?thesis
      using 1 by (subst read_loop.simps, subst chunks.simps) simp
  qed
qed

lemma concat_chunks: "0 < n \<Longrightarrow> concat (chunks n xs) = xs"
proof (induction n xs rule: chunks.induct)
  case (1 n xs)
  show ?case
  proof (cases "take n xs = []")
    case True
    with 1(2) have "xs = []" by simp
    then show ?thesis by (subst chunks.simps) simp
  next
    case False
    with 1 show ?thesis by (subst chunks.simps) simp
  qed
qed

lemma chunks_sizes: "c \<in> set (chunks n xs) \<Longrightarrow> c \<noteq> [] \<and> length c \<le> n"
proof (induction n xs rule: chunks.induct)
  case (1 n xs)
  show ?case
  proof (cases "take n xs = []")
    case True
    with 1(2) show ?thesis by (subst (asm) chunks.simps) simp
  next
    case False
    from 1(2) have "c \<in> set (take n xs # chunks n (drop n xs))"
      using False by (subst (asm) chunks.simps) simp
    with 1(1) False show ?thesis by auto
  qed
qed

lemma chunks_full: "c \<in> set (butlast (chunks n xs)) \<Longrightarrow> length c = n"
proof (induction n xs rule: chunks.induct)
  case (1 n xs)
  show ?case
  proof (cases "take n xs = []")
    case True
    with 1(2) show ?thesis by (subst (asm) chunks.simps) simp
  next
    case False
    from 1(2) have m: "c \<in> set (butlast (take n xs # chunks n (drop n xs)))"
      using False by (subst (asm) chunks.simps) simp
    show ?thesis
    proof (cases "chunks n (drop n xs) = []")
      case True
      with m show ?thesis by simp
    next
      case ne: False
      then have "take n (drop n xs) \<noteq> []"
        by (subst (asm) chunks.simps) (auto split: if_splits)
      then have "n \<le> length xs" by (cases "n \<le> length xs") auto
      then have "length (take n xs) = n" by simp
      with m ne 1(1) False show ?thesis by auto
    qed
  qed
qed

lemma foldl_update_chunks:
  assumes "streaming H" and "0 < n"
  shows "foldl (hash_update H) h (chunks n d) = hash_update H h d"
  using assms(2)
proof (induction n d arbitrary: h rule: chunks.induct)
  case (1 n xs)
  show ?case
  proof (cases "take n xs = []")
    case True
    with 1(2) have "xs = []" by simp
    then show ?thesis
      using assms(1) by (subst chunks.simps) (simp add: streaming_def)
  next
    case False
    have "foldl (hash_update H) h (chunks n xs)
        = foldl (hash_update H) (hash_update H h (take n xs)) (chunks n (drop n xs))"
      using False by (subst chunks.simps) simp
    also have "\<dots> = hash_update H (hash_update H h (take n xs)) (drop n xs)"
      using 1 False by simp
    also have "\<dots> = hash_update H h (take n xs @ drop n xs)"
      using assms(1) by (simp add: streaming_def)
    finally show ?thesis by simp
  qed
qed

lemma rfind_last: "c \<notin> set b \<Longrightarrow> rfind (a @ c # b) c = int (length a)"
proof -
  assume n: "c \<notin> set b"
  have "takeWhile (\<lambda>x. x \<noteq> c) (rev b @ c # rev a) = rev b"
    using n by (subst takeWhile_append2) auto
  then show ?thesis by (simp add: rfind_def)
qed

lemma rfind_none: "c \<notin> set p \<Longrightarrow> rfind p c = - 1"
  by (simp add: rfind_def)

lemma basename_split:
  "\<exists>dir. p = dir @ basename p \<and> CHR ''/'' \<notin> set (basename p) \<and>
         rfind p (CHR ''/'') = int (length dir) - 1"
proof (cases "CHR ''/'' \<in> set p")
  case False
  then have "rfind p (CHR ''/'') = - 1" by (rule rfind_none)
  with False have "p = [] @ basename p \<and> CHR ''/'' \<notin> set (basename p) \<and>
         rfind p (CHR ''/'') = int (length ([]::string)) - 1"
    by (simp add: basename_def)
  then show ?thesis by blast
next
  case True
  then obtain a b where ab: "p = a @ CHR ''/'' # b" "CHR ''/'' \<notin> set b"
    using split_list_last by fastforce
  then have r: "rfind p (CHR ''/'') = int (length a)" by (simp add: rfind_last)
  then have "basename p = b" using ab by (simp add: basename_def nat_add_distrib)
  with ab r have "p = (a @ ''/'') @ basename p \<and> CHR ''/'' \<notin> set (basename p) \<and>
         rfind p (CHR ''/'') = int (length (a @ ''/'')) - 1"
    by simp
  then show ?thesis by blast
qed

lemma splitext_loop_done: "splitext_loop P (int m) (int m) = (P, [])"
  by (subst splitext_loop.simps) simp

lemma splitext_loop_found:
  "k < m \<Longrightarrow> drop k P = x # rest \<Longrightarrow> x \<noteq> CHR ''.'' \<Longrightarrow>
   splitext_loop P (int k) (int m) = (take m P, drop m P)"
  by (subst splitext_loop.simps) simp

lemma splitext_loop_skip:
  "k < m \<Longrightarrow> drop k P = CHR ''.'' # rest \<Longrightarrow>
   splitext_loop P (int k) (int m) = splitext_loop P (int (Suc k)) (int m)"
  by (subst splitext_loop.simps) (simp add: add.commute)

lemma splitext_loop_scan:
  "splitext_loop (dir @ q @ r @ CHR ''.'' # suf) (int (length dir + length q))
       (int (length dir + length q + length r))
     = (if \<exists>c \<in> set r. c \<noteq> CHR ''.'' then (dir @ q @ r, CHR ''.'' # suf)
        else (dir @ q @ r @ CHR ''.'' # suf, []))"
proof (induction r arbitrary: q)
  case Nil
  show ?case
    using splitext_loop_done [of "dir @ q @ [] @ CHR ''.'' # suf" "length dir + length q"]
    by simp
next
  case (Cons x r)
  define P where "P = dir @ q @ (x # r) @ CHR ''.'' # suf"
  define k where "k = length dir + length q"
  define m where "m = length dir + length q + length (x # r)"
  have km: "k < m" by (simp add: k_def m_def)
  have d: "drop k P = x # (r @ CHR ''.'' # suf)"
    by (simp add: P_def k_def)
  have t: "take m P = dir @ q @ (x # r)" and dd: "drop m P = CHR ''.'' # suf"
    by (simp_all add: P_def m_def)
  show ?case
  proof (cases "x = CHR ''.''")
    case True
    have "splitext_loop P (int k) (int m) = splitext_loop P (int (Suc k)) (int m)"
      using km d True by (simp add: splitext_loop_skip)
    also have "\<dots> = splitext_loop (dir @ (q @ [x]) @ r @ CHR ''.'' # suf)
        (int (length dir + length (q @ [x]))) (int (length dir + length (q @ [x]) + length r))"
      by (simp add: P_def k_def m_def)
    also have "\<dots> = (if \<exists>c \<in> set r. c \<noteq> CHR ''.'' then (dir @ (q @ [x]) @ r, CHR ''.'' # suf)
        else (dir @ (q @ [x]) @ r @ CHR ''.'' # suf, []))"
      by (rule Cons.IH)
    finally show ?thesis using True by (simp add: P_def k_def m_def)
  next
    case False
    have "splitext_loop P (int k) (int m) = (take m P, drop m P)"
      using km d False by (rule splitext_loop_found)
    with False t dd show ?thesis by (simp add: P_def k_def m_def)
  qed
qed

lemma splitext_dotted:
  assumes "basename p = pre @ CHR ''.'' # suf" and "CHR ''.'' \<notin> set suf"
  shows "snd (splitext p) = (if \<exists>c \<in> set pre. c \<noteq> CHR ''.'' then CHR ''.'' # suf else [])"
proof -
  obtain dir where dir: "p = dir @ basename p" "rfind p (CHR ''/'') = int (length dir) - 1"
    using basename_split by blast
  with assms have p: "p = (dir @ pre) @ CHR ''.'' # suf" by simp
  then have dot: "rfind p (CHR ''.'') = int (length dir + length pre)"
    using assms(2) rfind_last [of "CHR ''.''" suf "dir @ pre"] by simp
  have "splitext p = splitext_loop p (int (length dir)) (int (length dir + length pre))"
    using dir(2) dot by (simp add: splitext_def Let_def)
  also have "\<dots> = splitext_loop (dir @ [] @ pre @ CHR ''.'' # suf) (int (length dir + length ([]::string)))
       (int (length dir + length ([]::string) + length pre))"
    using p by simp
  also have "\<dots> = (if \<exists>c \<in> set pre. c \<noteq> CHR ''.'' then (dir @ [] @ pre, CHR ''.'' # suf)
        else (dir @ [] @ pre @ CHR ''.'' # suf, []))"
    by (rule splitext_loop_scan)
  finally show ?thesis by simp
qed

lemma splitext_undotted:
  assumes "CHR ''.'' \<notin> set (basename p)"
  shows "snd (splitext p) = []"
proof -
  obtain dir where dir: "p = dir @ basename p" "rfind p (CHR ''/'') = int (length dir) - 1"
    using basename_split by blast
  have "rfind p (CHR ''.'') \<le> int (length dir) - 1"
  proof (cases "CHR ''.'' \<in> set p")
    case False
    then show ?thesis by (simp add: rfind_none)
  next
    case True
    then obtain a b where ab: "p = a @ CHR ''.'' # b" "CHR ''.'' \<notin> set b"
      using split_list_last by fastforce
    have "length a < length dir"
    proof (rule ccontr)
      assume "\<not> length a < length dir"
      then have le: "length dir \<le> length a" by simp
      have "p ! length a = CHR ''.''" using ab by simp
      moreover have "length a < length p" using ab by simp
      ultimately have "basename p ! (length a - length dir) = CHR ''.''"
        "length a - length dir < length (basename p)"
        using dir(1) le
        by (metis nth_append not_less, metis add_diff_inverse_nat length_append nat_add_left_cancel_less not_less)
      then have "CHR ''.'' \<in> set (basename p)"
        by (metis nth_mem)
      with assms show False by simp
    qed
    then show ?thesis using ab by (simp add: rfind_last)
  qed
  then show ?thesis using dir(2) by (simp add: splitext_def Let_def)
qed

lemma get_file_metadata_file:
  assumes "os_stat fsys p = Inr (File d st)"
  shows "get_file_metadata H fsys p =
           Inr \<lparr>file_extension = snd (splitext p), file_size = int (length d),
                file_hash = hash_hexdigest H (read_loop H 4096 d (hash_new H))\<rparr>"
  using assms
  by (simp add: get_file_metadata_def getsize_def get_file_hash_def read_file_def)

lemma streaming_example_hash: "streaming example_hash"
  by (simp add: streaming_def example_hash_def)

text \<open>
  Claim C7 (the fingerprint), as amended. For a path that names a regular file: the size
  field is the byte count of the file; the hash field is the hexadecimal digest of the
  hash object that has been fed the content of the file in successive chunks of 4096
  bytes, the last one shorter, until the end of the file, which for a \<open>hashlib\<close> algorithm
  (the program passes SHA-256) is the digest of the whole content; the extension field
  is the part of the last path component from its last dot on, the dot included, and is
  empty when the component has no dot or has only dots before its last dot.
\<close>

theorem get_file_metadata_fields:
  assumes "os_stat fsys p = Inr (File d st)"
  shows "get_file_metadata H fsys p =
           Inr \<lparr>file_extension = snd (splitext p), file_size = int (length d),
                file_hash = hash_hexdigest H (foldl (hash_update H) (hash_new H) (chunks 4096 d))\<rparr> \<and>
         concat (chunks 4096 d) = d \<and>
         (\<forall>c \<in> set (chunks 4096 d). c \<noteq> [] \<and> length c \<le> 4096) \<and>
         (\<forall>c \<in> set (butlast (chunks 4096 d)). length c = 4096) \<and>
         (streaming H \<longrightarrow>
            foldl (hash_update H) (hash_new H) (chunks 4096 d) = hash_update H (hash_new H) d) \<and>
         (CHR ''.'' \<notin> set (basename p) \<longrightarrow> snd (splitext p) = []) \<and>
         (\<forall>pre suf. basename p = pre @ CHR ''.'' # suf \<and> CHR ''.'' \<notin> set suf \<longrightarrow>
            snd (splitext p) = (if \<exists>c \<in> set pre. c \<noteq> CHR ''.'' then CHR ''.'' # suf else []))"
proof (intro conjI)
  show "get_file_metadata H fsys p =
           Inr \<lparr>file_extension = snd (splitext p), file_size = int (length d),
                file_hash = hash_hexdigest H (foldl (hash_update H) (hash_new H) (chunks 4096 d))\<rparr>"
    using assms by (simp add: get_file_metadata_file read_loop_chunks)
  show "concat (chunks 4096 d) = d" by (simp add: concat_chunks)
  show "\<forall>c \<in> set (chunks 4096 d). c \<noteq> [] \<and> length c \<le> 4096"
    using chunks_sizes by blast
  show "\<forall>c \<in> set (butlast (chunks 4096 d)). length c = 4096"
    using chunks_full by blast
  show "streaming H \<longrightarrow>
      foldl (hash_update H) (hash_new H) (chunks 4096 d) = hash_update H (hash_new H) d"
    by (simp add: foldl_update_chunks)
  show "CHR ''.'' \<notin> set (basename p) \<longrightarrow> snd (splitext p) = []"
    by (simp add: splitext_undotted)
  show "\<forall>pre suf. basename p = pre @ CHR ''.'' # suf \<and> CHR ''.'' \<notin> set suf \<longrightarrow>
      snd (splitext p) = (if \<exists>c \<in> set pre. c \<noteq> CHR ''.'' then CHR ''.'' # suf else [])"
    by (simp add: splitext_dotted)
qed

lemma dotted_facts:
  "os_stat dotted_fs ''/u/notes.txt'' = Inr (File [104, 105] example_stat)"
  "os_stat dotted_fs ''/u/.profile'' = Inr (File [] example_stat)"
  "basename ''/u/notes.txt'' = ''notes'' @ CHR ''.'' # ''txt''"
  "basename ''/u/.profile'' = [] @ CHR ''.'' # ''profile''"
  "basename ''/s/a'' = ''a''"
  "os_stat example_fs ''/s/a'' = Inr (File [1, 2] example_stat)"
  by code_simp+

lemma example_hexdigest:
  "hash_hexdigest example_hash (hash_update example_hash (hash_new example_hash) [104, 105]) = ''6869''"
  "hash_hexdigest example_hash (hash_update example_hash (hash_new example_hash) []) = []"
  by code_simp+

theorem get_file_metadata_fields_witness:
  "get_file_metadata example_hash dotted_fs ''/u/notes.txt''
     = Inr \<lparr>file_extension = ''.txt'', file_size = 2, file_hash = ''6869''\<rparr> \<and>
   get_file_metadata example_hash dotted_fs ''/u/.profile''
     = Inr \<lparr>file_extension = [], file_size = 0, file_hash = []\<rparr> \<and>
   file_extension (projr (get_file_metadata example_hash example_fs ''/s/a'')) = []"
proof (intro conjI)
  note t = get_file_metadata_fields [OF dotted_facts(1), of example_hash]
  from t have g: "get_file_metadata example_hash dotted_fs ''/u/notes.txt'' =
      Inr \<lparr>file_extension = snd (splitext ''/u/notes.txt''), file_size = int (length [104, 105 :: byte]),
           file_hash = hash_hexdigest example_hash
             (foldl (hash_update example_hash) (hash_new example_hash) (chunks 4096 [104, 105]))\<rparr>"
    by (rule conjunct1)
  from t have h: "foldl (hash_update example_hash) (hash_new example_hash) (chunks 4096 [104, 105])
      = hash_update example_hash (hash_new example_hash) [104, 105]"
    using streaming_example_hash by blast
  from t have "\<forall>pre suf. basename ''/u/notes.txt'' = pre @ CHR ''.'' # suf \<and> CHR ''.'' \<notin> set suf \<longrightarrow>
      snd (splitext ''/u/notes.txt'')
        = (if \<exists>c \<in> set pre. c \<noteq> CHR ''.'' then CHR ''.'' # suf else [])"
    by blast
  from this [THEN spec [where x = "''notes''"], THEN spec [where x = "''txt''"]]
  have e: "snd (splitext ''/u/notes.txt'') = ''.txt''"
    by (simp add: dotted_facts(3))
  show "get_file_metadata example_hash dotted_fs ''/u/notes.txt''
     = Inr \<lparr>file_extension = ''.txt'', file_size = 2, file_hash = ''6869''\<rparr>"
    by (simp add: g h e example_hexdigest)
next
  note t = get_file_metadata_fields [OF dotted_facts(2), of example_hash]
  from t have g: "get_file_metadata example_hash dotted_fs ''/u/.profile'' =
      Inr \<lparr>file_extension = snd (splitext ''/u/.profile''), file_size = int (length ([] :: byte list)),
           file_hash = hash_hexdigest example_hash
             (foldl (hash_update example_hash) (hash_new example_hash) (chunks 4096 []))\<rparr>"
    by (rule conjunct1)
  from t have h: "foldl (hash_update example_hash) (hash_new example_hash) (chunks 4096 [])
      = hash_update example_hash (hash_new example_hash) []"
    using streaming_example_hash by blast
  from t have "\<forall>pre suf. basename ''/u/.profile'' = pre @ CHR ''.'' # suf \<and> CHR ''.'' \<notin> set suf \<longrightarrow>
      snd (splitext ''/u/.profile'')
        = (if \<exists>c \<in> set pre. c \<noteq> CHR ''.'' then CHR ''.'' # suf else [])"
    by blast
  from this [THEN spec [where x = "[]"], THEN spec [where x = "''profile''"]]
  have e: "snd (splitext ''/u/.profile'') = []"
    by (simp add: dotted_facts(4))
  show "get_file_metadata example_hash dotted_fs ''/u/.profile''
     = Inr \<lparr>file_extension = [], file_size = 0, file_hash = []\<rparr>"
    by (simp add: g h e example_hexdigest)
next
  note t = get_file_metadata_fields [OF dotted_facts(6), of example_hash]
  from t have g: "get_file_metadata example_hash example_fs ''/s/a'' =
      Inr \<lparr>file_extension = snd (splitext ''/s/a''), file_size = int (length [1, 2 :: byte]),
           file_hash = hash_hexdigest example_hash
             (foldl (hash_update example_hash) (hash_new example_hash) (chunks 4096 [1, 2]))\<rparr>"
    by (rule conjunct1)
  from t have "CHR ''.'' \<notin> set (basename ''/s/a'') \<longrightarrow> snd (splitext ''/s/a'') = []"
    by blast
  then have "snd (splitext ''/s/a'') = []"
    by (simp add: dotted_facts(5))
  then show "file_extension (projr (get_file_metadata example_hash example_fs ''/s/a'')) = []"
    by (simp add: g)
qed

text \<open>
  The claim as the specification states it fails on the extension: for \<open>notes.txt\<close> the
  field is \<open>.txt\<close>, with the dot, and for \<open>.profile\<close> it is empty.
\<close>

theorem extension_counterexample:
  "file_extension (projr (get_file_metadata example_hash dotted_fs ''/u/notes.txt'')) = ''.txt'' \<and>
   spec_extension ''/u/notes.txt'' = ''txt'' \<and>
   file_extension (projr (get_file_metadata example_hash dotted_fs ''/u/.profile'')) = [] \<and>
   spec_extension ''/u/.profile'' = ''profile''"
  by code_simp

text \<open>
  Claim C8 (determinism of the fingerprint). Two computations of the fingerprint of a
  path, in two states of the file system in which the path names a regular file with the
  same content, both succeed and agree in extension, size and hash; computing it reads
  the file system and changes nothing.
\<close>

theorem get_file_metadata_deterministic:
  assumes "os_stat fs1 p = Inr (File d st1)" and "os_stat fs2 p = Inr (File d st2)"
  shows "\<exists>m1 m2. get_file_metadata H fs1 p = Inr m1 \<and> get_file_metadata H fs2 p = Inr m2 \<and>
           file_extension m1 = file_extension m2 \<and> file_size m1 = file_size m2 \<and>
           file_hash m1 = file_hash m2"
  using assms by (simp add: get_file_metadata_file)

lemma example_after_copy:
  "os_stat (projr (copy2 ''/s/b'' ''/t/b'' example_fs)) ''/s/a'' = Inr (File [1, 2] example_stat)"
  "projr (copy2 ''/s/b'' ''/t/b'' example_fs) \<noteq> example_fs"
  by code_simp+

theorem get_file_metadata_deterministic_witness:
  "\<exists>m1 m2. get_file_metadata example_hash example_fs ''/s/a'' = Inr m1 \<and>
     get_file_metadata example_hash (projr (copy2 ''/s/b'' ''/t/b'' example_fs)) ''/s/a'' = Inr m2 \<and>
     file_extension m1 = file_extension m2 \<and> file_size m1 = file_size m2 \<and>
     file_hash m1 = file_hash m2"
  by (rule get_file_metadata_deterministic [OF dotted_facts(6) example_after_copy(1)])

section \<open>The walk and the comparison\<close>

lemma wf_entries_member:
  "wf_entries es \<Longrightarrow> (n, c) \<in> set es \<Longrightarrow> valid_name n \<and> wf_node c"
  by (induction es) auto

lemma wf_entries_subset:
  "wf_entries es' \<Longrightarrow> set es \<subseteq> set es' \<Longrightarrow> wf_entries es"
  by (induction es) (auto dest: wf_entries_member)























section \<open>The equality of directories\<close>


















lemma filecmp_cmp_File: "filecmp_cmp (File d1 s1) (File d2 s2) = (d1 = d2)"
  by auto















text \<open>
  Outside the amended claim: a name that is a regular file on one side and a directory
  on the other goes to \<open>common_funny\<close>, which \<open>are_directories_equal\<close> does not inspect.
  The directories \<open>/s\<close> and \<open>/t\<close> below differ in the path \<open>x/y\<close> and compare equal.
\<close>

lemma are_directories_equal_type_mismatch:
  "are_directories_equal clash_fs ''/s'' ''/t'' = Inr True \<and>
   rel_paths (projr (os_stat clash_fs ''/s'')) = [[''x'']] \<and>
   rel_paths (projr (os_stat clash_fs ''/t'')) = [[''x''], [''x'', ''y'']] \<and>
   \<not> directories_identical (projr (os_stat clash_fs ''/s'')) (projr (os_stat clash_fs ''/t''))"
  by code_simp

end
